theory Spec2Isabelle
  imports Main "HOL-Library.Mapping"
begin

section \<open>Data model (app/main.py, section 2)\<close>

text \<open>
  \<^verbatim>\<open>class URL(URLBase, table=True)\<close>: one row of the table. The field \<^verbatim>\<open>id\<close> is
  \<^verbatim>\<open>Optional[int]\<close>: it is \<open>None\<close> on the object built by the handler and is assigned by
  the database at commit. Defaults: \<^verbatim>\<open>is_active = True\<close>, \<^verbatim>\<open>clicks = 0\<close>.
\<close>

record url =
  url_id :: "int option"
  target_url :: string
  short_code :: string
  is_active :: bool
  clicks :: int

text \<open>\<^verbatim>\<open>class URLCreate(URLBase)\<close>: the body of POST /shorten.\<close>

record URLCreate =
  req_target_url :: string
  req_short_code :: "string option"

definition URL :: "string \<Rightarrow> string \<Rightarrow> url" where
  "URL target code =
     \<lparr>url_id = None, target_url = target, short_code = code, is_active = True, clicks = 0\<rparr>"

text \<open>
  What a handler can raise: the two \<^verbatim>\<open>HTTPException\<close>s of the source (with their status
  code), the connection error of an awaited Redis command, the violation of the
  \<^verbatim>\<open>unique=True\<close> constraint on \<^verbatim>\<open>short_code\<close> at commit, and the database's refusal
  of a value that its column cannot hold.
\<close>

datatype error = HTTPException nat | ConnectionError | IntegrityError | DataError

definition HTTP_409_CONFLICT :: nat where
  "HTTP_409_CONFLICT = 409"

definition HTTP_307_TEMPORARY_REDIRECT :: nat where
  "HTTP_307_TEMPORARY_REDIRECT = 307"

datatype response = RedirectResponse string nat

text \<open>The dictionary returned by \<^verbatim>\<open>get_url_stats\<close>.\<close>

record url_stats =
  stats_short_code :: string
  stats_target_url :: string
  stats_clicks :: int
  stats_is_active :: bool

section \<open>The cache: \<^verbatim>\<open>redis.asyncio\<close>\<close>

text \<open>
  The server behind the client object is either reachable, holding its keys, or not.
  The lifespan handler builds the client before the ping and keeps it when the ping
  fails, so a client object whose server is unreachable is a state the handlers see.
  The global \<^verbatim>\<open>redis_client\<close> is \<open>None\<close> until the lifespan handler has run.
\<close>

datatype redis = Connected "(string, string) mapping" | Unreachable

text \<open>
  Calling a command method of the asyncio client only builds a coroutine object;
  the command is sent when the coroutine is awaited. A coroutine that is never
  awaited sends nothing and raises nothing.
\<close>

datatype coroutine = GET string | SET string string

definition redis_get :: "string \<Rightarrow> coroutine" where
  "redis_get name = GET name"

definition redis_set :: "string \<Rightarrow> string \<Rightarrow> coroutine" where
  "redis_set name v = SET name v"

fun await :: "coroutine \<Rightarrow> redis \<Rightarrow> error + (string option \<times> redis)" where
  "await c Unreachable = Inl ConnectionError"
| "await (GET name) (Connected m) = Inr (Mapping.lookup m name, Connected m)"
| "await (SET name v) (Connected m) = Inr (None, Connected (Mapping.update name v m))"

section \<open>The store and the state of the application\<close>

record state =
  rows :: "url list"
  next_id :: int
  redis_client :: "redis option"

text \<open>Python truthiness of an \<^verbatim>\<open>Optional[str]\<close>: \<open>None\<close> and the empty string are false.\<close>

fun truthy :: "string option \<Rightarrow> bool" where
  "truthy None = False"
| "truthy (Some v) = (v \<noteq> [])"

text \<open>\<^verbatim>\<open>select(URL).where(URL.short_code == code)\<close>, then \<^verbatim>\<open>.first()\<close>.\<close>

definition get_db_url_by_code :: "string \<Rightarrow> url list \<Rightarrow> url option" where
  "get_db_url_by_code code table = find (\<lambda>r. short_code r = code) table"

text \<open>
  \<^verbatim>\<open>session.add(db_url); session.commit(); session.refresh(db_url)\<close> for a new object:
  the INSERT fails on a duplicate \<^verbatim>\<open>short_code\<close>, otherwise the row gets the next id.
\<close>

definition commit_insert :: "url \<Rightarrow> state \<Rightarrow> error + (url \<times> state)" where
  "commit_insert db_url s =
     (if get_db_url_by_code (short_code db_url) (rows s) \<noteq> None then Inl IntegrityError
      else (let persisted = db_url\<lparr>url_id := Some (next_id s)\<rparr>
            in Inr (persisted, s\<lparr>rows := rows s @ [persisted], next_id := next_id s + 1\<rparr>)))"

text \<open>
  The engine is PostgreSQL (\<^verbatim>\<open>DATABASE_URL\<close>), and \<^verbatim>\<open>clicks: int\<close> is a column of its
  type INTEGER: 32 bits, signed.
\<close>

definition INTEGER_MIN :: int where
  "INTEGER_MIN = - 2147483648"

definition INTEGER_MAX :: int where
  "INTEGER_MAX = 2147483647"

text \<open>
  \<^verbatim>\<open>db_url.clicks += 1; session.add(db_url); session.commit()\<close> for a loaded object:
  the new value is computed by the handler from the value it read (a Python integer,
  unbounded), and the UPDATE writes that value into the row with the object's primary
  key. The database refuses a value outside the column's range; the commit then
  raises and the rows are as they were.
\<close>

definition commit_clicks :: "url \<Rightarrow> state \<Rightarrow> error + state" where
  "commit_clicks db_url s =
     (if INTEGER_MIN \<le> clicks db_url + 1 \<and> clicks db_url + 1 \<le> INTEGER_MAX
      then Inr (s\<lparr>rows := map (\<lambda>r. if url_id r = url_id db_url
                                   then r\<lparr>clicks := clicks db_url + 1\<rparr> else r) (rows s)\<rparr>)
      else Inl DataError)"

section \<open>Helpers (app/main.py, section 6)\<close>

definition alphabet :: string where
  "alphabet = ''abcdefghijklmnopqrstuvwxyzABCDEFGHIJKLMNOPQRSTUVWXYZ0123456789''"

text \<open>
  \<^verbatim>\<open>secrets.choice(seq)\<close> is \<^verbatim>\<open>seq[randbelow(len(seq))]\<close>. The random source is a
  sequence of raw draws \<open>rng\<close>; \<^verbatim>\<open>randbelow(n)\<close> is the next draw reduced below \<open>n\<close>.
\<close>

definition secrets_choice :: "'a list \<Rightarrow> nat \<Rightarrow> 'a" where
  "secrets_choice seq raw = seq ! (raw mod length seq)"

text \<open>\<^verbatim>\<open>generate_short_code(length)\<close>, reading the draws \<open>i, ..., i + length - 1\<close>.\<close>

definition generate_short_code :: "(nat \<Rightarrow> nat) \<Rightarrow> nat \<Rightarrow> nat \<Rightarrow> string" where
  "generate_short_code rng i len = map (\<lambda>j. secrets_choice alphabet (rng (i + j))) [0..<len]"

section \<open>Endpoints (app/main.py, section 7)\<close>

text \<open>
  The \<^verbatim>\<open>while True\<close> loop of \<^verbatim>\<open>create_short_url\<close>: draw, look the code up, leave the
  loop when it is unused. The loop has no bound; not returning is the value \<open>None\<close>.
\<close>

partial_function (option) create_short_url_loop ::
  "(nat \<Rightarrow> nat) \<Rightarrow> nat \<Rightarrow> url list \<Rightarrow> string option" where
  "create_short_url_loop rng i table =
     (let code = generate_short_code rng i 7
      in if get_db_url_by_code code table = None then Some code
         else create_short_url_loop rng (i + 7) table)"

declare create_short_url_loop.simps [code]

text \<open>
  The tail of \<^verbatim>\<open>create_short_url\<close>, after the code is chosen. The handler is a plain
  \<^verbatim>\<open>def\<close>: it calls \<^verbatim>\<open>redis_client.set(...)\<close> of the asyncio client without awaiting
  it, so the coroutine is built and dropped.
\<close>

definition create_short_url_persist ::
  "URLCreate \<Rightarrow> string \<Rightarrow> state \<Rightarrow> (error + url) \<times> state" where
  "create_short_url_persist url code s =
     (case commit_insert (URL (req_target_url url) code) s of
        Inl e \<Rightarrow> (Inl e, s)
      | Inr (db_url, s') \<Rightarrow>
          (case redis_client s' of
             None \<Rightarrow> (Inr db_url, s')
           | Some client \<Rightarrow>
               (let dropped = redis_set code (target_url db_url)
                in (Inr db_url, s'))))"

text \<open>
  \<^verbatim>\<open>POST /shorten\<close>. The branch \<^verbatim>\<open>if url.short_code\<close> is taken for a supplied, non-empty
  code; \<open>None\<close> and the empty string go to the loop. The result is \<open>None\<close> when the loop
  does not return.
\<close>

definition create_short_url_generated ::
  "(nat \<Rightarrow> nat) \<Rightarrow> URLCreate \<Rightarrow> state \<Rightarrow> ((error + url) \<times> state) option" where
  "create_short_url_generated rng url s =
     (case create_short_url_loop rng 0 (rows s) of
        None \<Rightarrow> None
      | Some code \<Rightarrow> Some (create_short_url_persist url code s))"

definition create_short_url ::
  "(nat \<Rightarrow> nat) \<Rightarrow> URLCreate \<Rightarrow> state \<Rightarrow> ((error + url) \<times> state) option" where
  "create_short_url rng url s =
     (case req_short_code url of
        None \<Rightarrow> create_short_url_generated rng url s
      | Some code \<Rightarrow>
          if code = [] then create_short_url_generated rng url s
          else if get_db_url_by_code code (rows s) \<noteq> None
            then Some (Inl (HTTPException HTTP_409_CONFLICT), s)
            else Some (create_short_url_persist url code s))"

text \<open>\<^verbatim>\<open>GET /stats/{short_code}\<close>.\<close>

definition get_url_stats :: "string \<Rightarrow> state \<Rightarrow> error + url_stats" where
  "get_url_stats code s =
     (case get_db_url_by_code code (rows s) of
        None \<Rightarrow> Inl (HTTPException 404)
      | Some db_url \<Rightarrow>
          Inr \<lparr>stats_short_code = short_code db_url, stats_target_url = target_url db_url,
               stats_clicks = clicks db_url, stats_is_active = is_active db_url\<rparr>)"

text \<open>
  \<^verbatim>\<open>GET /{short_code}\<close>. The first step is the cache lookup, the second the body of
  \<^verbatim>\<open>if not target_url\<close>. An exception leaves the state as it was when it was raised.
\<close>

definition redirect_from_store :: "string \<Rightarrow> state \<Rightarrow> (error + response) \<times> state" where
  "redirect_from_store code s =
     (case get_db_url_by_code code (rows s) of
        None \<Rightarrow> (Inl (HTTPException 404), s)
      | Some db_url \<Rightarrow>
          if \<not> is_active db_url then (Inl (HTTPException 404), s)
          else
            (case redis_client s of
               None \<Rightarrow>
                 (case commit_clicks db_url s of
                    Inl e \<Rightarrow> (Inl e, s)
                  | Inr s' \<Rightarrow>
                      (Inr (RedirectResponse (target_url db_url) HTTP_307_TEMPORARY_REDIRECT),
                       s'))
             | Some client \<Rightarrow>
                 (case await (redis_set code (target_url db_url)) client of
                    Inl e \<Rightarrow> (Inl e, s)
                  | Inr (reply, client') \<Rightarrow>
                      (case commit_clicks db_url (s\<lparr>redis_client := Some client'\<rparr>) of
                         Inl e \<Rightarrow> (Inl e, s\<lparr>redis_client := Some client'\<rparr>)
                       | Inr s' \<Rightarrow>
                           (Inr (RedirectResponse (target_url db_url)
                                  HTTP_307_TEMPORARY_REDIRECT),
                            s')))))"

definition redirect_to_target_url :: "string \<Rightarrow> state \<Rightarrow> (error + response) \<times> state" where
  "redirect_to_target_url code s =
     (case redis_client s of
        None \<Rightarrow> redirect_from_store code s
      | Some client \<Rightarrow>
          (case await (redis_get code) client of
             Inl e \<Rightarrow> (Inl e, s)
           | Inr (cached, client') \<Rightarrow>
               (case cached of
                  None \<Rightarrow> redirect_from_store code (s\<lparr>redis_client := Some client'\<rparr>)
                | Some v \<Rightarrow>
                    if v = [] then redirect_from_store code (s\<lparr>redis_client := Some client'\<rparr>)
                    else (Inr (RedirectResponse v HTTP_307_TEMPORARY_REDIRECT),
                          s\<lparr>redis_client := Some client'\<rparr>))))"


section \<open>Predicates and example states used by the statements\<close>

text \<open>
  The cache lookup of \<^verbatim>\<open>redirect_to_target_url\<close> misses when there is no client, or the
  server answers with nothing or with the empty string (\<^verbatim>\<open>if not target_url\<close>).
\<close>

definition cache_miss :: "state \<Rightarrow> string \<Rightarrow> bool" where
  "cache_miss s code =
     (case redis_client s of
        None \<Rightarrow> True
      | Some Unreachable \<Rightarrow> False
      | Some (Connected m) \<Rightarrow> \<not> truthy (Mapping.lookup m code))"

text \<open>Every key of the cache is the code of a row of the store.\<close>

definition cache_within_store :: "state \<Rightarrow> bool" where
  "cache_within_store s =
     (case redis_client s of
        Some (Connected m) \<Rightarrow>
          (\<forall>k \<in> Mapping.keys m. get_db_url_by_code k (rows s) \<noteq> None)
      | _ \<Rightarrow> True)"

definition example_row :: url where
  "example_row =
     \<lparr>url_id = Some 1, target_url = ''https://x.com'', short_code = ''abc1234'',
      is_active = True, clicks = 0\<rparr>"

definition empty_store :: "redis option \<Rightarrow> state" where
  "empty_store client = \<lparr>rows = [], next_id = 1, redis_client = client\<rparr>"

definition example_store :: "redis option \<Rightarrow> state" where
  "example_store client = \<lparr>rows = [example_row], next_id = 2, redis_client = client\<rparr>"

definition inactive_store :: "redis option \<Rightarrow> state" where
  "inactive_store client =
     \<lparr>rows = [example_row\<lparr>is_active := False\<rparr>], next_id = 2, redis_client = client\<rparr>"

definition clicked_store :: "int \<Rightarrow> redis option \<Rightarrow> state" where
  "clicked_store n client =
     \<lparr>rows = [example_row\<lparr>clicks := n\<rparr>], next_id = 2, redis_client = client\<rparr>"

definition example_cache :: redis where
  "example_cache = Connected (Mapping.update ''abc1234'' ''https://x.com'' Mapping.empty)"

definition example_request :: URLCreate where
  "example_request = \<lparr>req_target_url = ''https://x.com'', req_short_code = Some ''abc1234''\<rparr>"

section \<open>The store\<close>

lemma get_db_url_by_code_short_code:
  "get_db_url_by_code code table = Some r \<Longrightarrow> short_code r = code"
  by (induction table) (auto simp: get_db_url_by_code_def split: if_splits)

lemma get_db_url_by_code_append:
  "get_db_url_by_code code (table @ [r]) =
     (case get_db_url_by_code code table of
        Some x \<Rightarrow> Some x
      | None \<Rightarrow> if short_code r = code then Some r else None)"
  by (induction table) (simp_all add: get_db_url_by_code_def)

lemma commit_clicks_in_range:
  assumes "INTEGER_MIN \<le> clicks u" and "clicks u < INTEGER_MAX"
  shows "commit_clicks u s =
     Inr (s\<lparr>rows := map (\<lambda>r. if url_id r = url_id u
                              then r\<lparr>clicks := clicks u + 1\<rparr> else r) (rows s)\<rparr>)"
  using assms by (simp add: commit_clicks_def)

lemma commit_clicks_Inr:
  assumes "commit_clicks u s = Inr s'"
  shows "s' = s\<lparr>rows := map (\<lambda>r. if url_id r = url_id u
                               then r\<lparr>clicks := clicks u + 1\<rparr> else r) (rows s)\<rparr>"
  using assms by (auto simp: commit_clicks_def split: if_splits)

lemma get_db_url_by_code_commit_clicks:
  assumes "commit_clicks u s = Inr s'"
  shows "get_db_url_by_code code (rows s') =
     map_option (\<lambda>r. if url_id r = url_id u then r\<lparr>clicks := clicks u + 1\<rparr> else r)
       (get_db_url_by_code code (rows s))"
proof -
  have "find (\<lambda>r. short_code r = code)
          (map (\<lambda>r. if url_id r = url_id u then r\<lparr>clicks := clicks u + 1\<rparr> else r) table) =
        map_option (\<lambda>r. if url_id r = url_id u then r\<lparr>clicks := clicks u + 1\<rparr> else r)
          (find (\<lambda>r. short_code r = code) table)" for table :: "url list"
    by (induction table) simp_all
  then show ?thesis
    by (simp add: get_db_url_by_code_def commit_clicks_Inr [OF assms])
qed

lemma commit_clicks_redis_client:
  "commit_clicks u s = Inr s' \<Longrightarrow> redis_client s' = redis_client s"
  by (auto simp: commit_clicks_def split: if_splits)

lemma redis_client_update_same [simp]:
  "redis_client s = c \<Longrightarrow> s\<lparr>redis_client := c\<rparr> = s"
  by (cases s) auto

text \<open>With distinct primary keys, the click update touches one row only.\<close>

lemma commit_clicks_other_rows:
  assumes "distinct (map url_id (rows s))" and "u \<in> set (rows s)"
    and "commit_clicks u s = Inr s'"
  shows "rows s' = map (\<lambda>r. if r = u then u\<lparr>clicks := clicks u + 1\<rparr> else r) (rows s)"
proof -
  have "(url_id r = url_id u) = (r = u)" if "r \<in> set (rows s)" for r
    using that assms(1,2) by (auto simp: distinct_map dest: inj_onD)
  then show ?thesis
    unfolding commit_clicks_Inr [OF assms(3)] by (auto intro: map_cong)
qed

text \<open>
  The value written is the one the handler computed from the object it loaded: a
  second commit of the same loaded object writes the same value again.
\<close>

lemma commit_clicks_twice:
  assumes "commit_clicks u s = Inr s'"
  shows "commit_clicks u s' = Inr s'"
proof -
  have "INTEGER_MIN \<le> clicks u + 1 \<and> clicks u + 1 \<le> INTEGER_MAX"
    using assms by (simp add: commit_clicks_def split: if_splits)
  then show ?thesis
    unfolding commit_clicks_Inr [OF assms] by (simp add: commit_clicks_def comp_def)
qed

section \<open>The resolver\<close>

lemma redirect_from_store_active:
  assumes "get_db_url_by_code code (rows s) = Some r" and "is_active r"
    and "redis_client s = Some (Connected m)"
    and "commit_clicks r (s\<lparr>redis_client :=
           Some (Connected (Mapping.update code (target_url r) m))\<rparr>) = Inr s'"
  shows "redirect_from_store code s =
    (Inr (RedirectResponse (target_url r) HTTP_307_TEMPORARY_REDIRECT), s')"
  using assms by (simp add: redirect_from_store_def redis_set_def)

lemma redirect_from_store_no_client:
  assumes "get_db_url_by_code code (rows s) = Some r" and "is_active r"
    and "redis_client s = None" and "commit_clicks r s = Inr s'"
  shows "redirect_from_store code s =
    (Inr (RedirectResponse (target_url r) HTTP_307_TEMPORARY_REDIRECT), s')"
  using assms by (simp add: redirect_from_store_def)

lemma redirect_to_target_url_miss:
  "cache_miss s code \<Longrightarrow> redirect_to_target_url code s = redirect_from_store code s"
  by (auto simp: cache_miss_def redirect_to_target_url_def redis_get_def
      split: option.splits redis.splits)

section \<open>The code generator\<close>

lemma alphabet_length: "length alphabet = 62"
  by (simp add: alphabet_def)

lemma alphabet_distinct: "distinct alphabet"
  by (simp add: alphabet_def)

lemma generate_short_code_length: "length (generate_short_code rng i len) = len"
  by (simp add: generate_short_code_def)

lemma generate_short_code_alphabet: "set (generate_short_code rng i len) \<subseteq> set alphabet"
  by (auto simp: generate_short_code_def secrets_choice_def alphabet_length)

text \<open>A code the loop returns is one of its draws, and the lookup of it found nothing.\<close>

lemma create_short_url_loop_unused:
  assumes "create_short_url_loop rng i table = Some code"
  shows "get_db_url_by_code code table = None \<and>
         (\<exists>n. code = generate_short_code rng (i + 7 * n) 7)"
proof (rule create_short_url_loop.raw_induct
    [where P = "\<lambda>rng i table code. get_db_url_by_code code table = None \<and>
         (\<exists>n. code = generate_short_code rng (i + 7 * n) 7)", OF _ assms])
  fix loop :: "(nat \<Rightarrow> nat) \<Rightarrow> nat \<Rightarrow> url list \<Rightarrow> string option"
  fix rng i table code
  assume IH: "\<And>rng i table code. loop rng i table = Some code \<Longrightarrow>
      get_db_url_by_code code table = None \<and>
      (\<exists>n. code = generate_short_code rng (i + 7 * n) 7)"
  assume body: "(let code = generate_short_code rng i 7
      in if get_db_url_by_code code table = None then Some code
         else loop rng (i + 7) table) = Some code"
  show "get_db_url_by_code code table = None \<and>
      (\<exists>n. code = generate_short_code rng (i + 7 * n) 7)"
  proof (cases "get_db_url_by_code (generate_short_code rng i 7) table = None")
    case True
    with body have "code = generate_short_code rng i 7"
      by simp
    with True show ?thesis
      by (intro conjI exI [of _ 0]) simp_all
  next
    case False
    with body have "loop rng (i + 7) table = Some code"
      by simp
    from IH [OF this] obtain n where
      free: "get_db_url_by_code code table = None"
      and "code = generate_short_code rng (i + 7 + 7 * n) 7"
      by auto
    then have "code = generate_short_code rng (i + 7 * Suc n) 7"
      by (simp add: add.assoc)
    with free show ?thesis
      by (intro conjI exI [of _ "Suc n"])
  qed
qed

text \<open>The loop returns the first draw that is unused, after re-drawing on each collision.\<close>

lemma create_short_url_loop_first_unused:
  assumes "get_db_url_by_code (generate_short_code rng (i + 7 * n) 7) table = None"
    and "\<forall>j<n. get_db_url_by_code (generate_short_code rng (i + 7 * j) 7) table \<noteq> None"
  shows "create_short_url_loop rng i table = Some (generate_short_code rng (i + 7 * n) 7)"
  using assms
proof (induction n arbitrary: i)
  case 0
  then show ?case
    by (subst create_short_url_loop.simps) simp
next
  case (Suc n)
  from Suc.prems(2) have here: "get_db_url_by_code (generate_short_code rng i 7) table \<noteq> None"
    by (metis add.right_neutral mult_zero_right zero_less_Suc)
  have "get_db_url_by_code (generate_short_code rng (i + 7 + 7 * n) 7) table = None"
    using Suc.prems(1) by (simp add: add.assoc)
  moreover have "\<forall>j<n. get_db_url_by_code (generate_short_code rng (i + 7 + 7 * j) 7) table \<noteq> None"
  proof (intro allI impI)
    fix j assume "j < n"
    then have "Suc j < Suc n" by simp
    with Suc.prems(2) have
      "get_db_url_by_code (generate_short_code rng (i + 7 * Suc j) 7) table \<noteq> None"
      by blast
    then show "get_db_url_by_code (generate_short_code rng (i + 7 + 7 * j) 7) table \<noteq> None"
      by (simp add: add.assoc)
  qed
  ultimately have "create_short_url_loop rng (i + 7) table =
      Some (generate_short_code rng (i + 7 + 7 * n) 7)"
    by (rule Suc.IH)
  with here show ?case
    by (subst create_short_url_loop.simps) (auto simp: Let_def add.assoc)
qed

section \<open>The shortener\<close>

lemma create_short_url_persist_fresh:
  assumes "get_db_url_by_code code (rows s) = None"
  shows "create_short_url_persist url code s =
     (Inr ((URL (req_target_url url) code)\<lparr>url_id := Some (next_id s)\<rparr>),
      s\<lparr>rows := rows s @ [(URL (req_target_url url) code)\<lparr>url_id := Some (next_id s)\<rparr>],
        next_id := next_id s + 1\<rparr>)"
  using assms
  by (simp add: create_short_url_persist_def commit_insert_def URL_def Let_def
      split: option.splits)

lemma create_short_url_no_code:
  "\<not> truthy (req_short_code url) \<Longrightarrow>
     create_short_url rng url s = create_short_url_generated rng url s"
  by (cases "req_short_code url") (simp_all add: create_short_url_def)

text \<open>What a successful creation returns, and the state it leaves.\<close>

lemma create_short_url_Inr:
  assumes "create_short_url rng url s = Some (Inr db_url, s')"
  shows "get_db_url_by_code (short_code db_url) (rows s) = None
       \<and> db_url = (URL (req_target_url url) (short_code db_url))\<lparr>url_id := Some (next_id s)\<rparr>
       \<and> s' = s\<lparr>rows := rows s @ [db_url], next_id := next_id s + 1\<rparr>"
proof (cases "truthy (req_short_code url)")
  case True
  then obtain code where c: "req_short_code url = Some code" "code \<noteq> []"
    by (cases "req_short_code url") auto
  with assms have free: "get_db_url_by_code code (rows s) = None"
    by (auto simp: create_short_url_def split: if_splits)
  with assms c show ?thesis
    by (auto simp: create_short_url_def create_short_url_persist_fresh URL_def)
next
  case False
  with assms obtain code where l: "create_short_url_loop rng 0 (rows s) = Some code"
    and p: "create_short_url_persist url code s = (Inr db_url, s')"
    by (auto simp: create_short_url_no_code create_short_url_generated_def split: option.splits)
  from create_short_url_loop_unused [OF l] have "get_db_url_by_code code (rows s) = None"
    by simp
  with p show ?thesis
    by (auto simp: create_short_url_persist_fresh URL_def)
qed

text \<open>
  The existence check comes before the INSERT, so within one request the unique
  constraint is never violated.
\<close>

lemma create_short_url_no_IntegrityError:
  "create_short_url rng url s \<noteq> Some (Inl IntegrityError, s')"
proof (cases "truthy (req_short_code url)")
  case True
  then obtain code where "req_short_code url = Some code" "code \<noteq> []"
    by (cases "req_short_code url") auto
  then show ?thesis
    by (auto simp: create_short_url_def create_short_url_persist_fresh HTTP_409_CONFLICT_def)
next
  case False
  show ?thesis
  proof (cases "create_short_url_loop rng 0 (rows s)")
    case None
    with False show ?thesis
      by (simp add: create_short_url_no_code create_short_url_generated_def)
  next
    case (Some code)
    from create_short_url_loop_unused [OF this] have "get_db_url_by_code code (rows s) = None"
      by simp
    with False Some show ?thesis
      by (simp add: create_short_url_no_code create_short_url_generated_def
          create_short_url_persist_fresh)
  qed
qed

text \<open>No creation, successful or not, sends anything to the cache.\<close>

lemma create_short_url_redis_client:
  assumes "create_short_url rng url s = Some (res, s')"
  shows "redis_client s' = redis_client s"
proof -
  have "redis_client (snd (create_short_url_persist url code s)) = redis_client s" for code
    by (simp add: create_short_url_persist_def commit_insert_def Let_def
        split: option.splits sum.splits)
  with assms show ?thesis
    by (auto simp: create_short_url_def create_short_url_generated_def
        split: if_splits option.splits)
      (metis snd_conv)+
qed

section \<open>The cache stays within the store\<close>

lemma cache_within_store_empty: "cache_within_store (empty_store (Some (Connected Mapping.empty)))"
  by (simp add: cache_within_store_def empty_store_def)

lemma cache_within_store_create_short_url:
  assumes "cache_within_store s" and "create_short_url rng url s = Some (res, s')"
  shows "cache_within_store s'"
proof -
  have client: "redis_client s' = redis_client s"
    using assms(2) by (rule create_short_url_redis_client)
  have grow: "get_db_url_by_code k (rows s') \<noteq> None"
    if "get_db_url_by_code k (rows s) \<noteq> None" for k
  proof (cases res)
    case (Inl e)
    have "snd (create_short_url_persist url code s) = s"
      if "fst (create_short_url_persist url code s) = Inl e" for code
      using that
      by (auto simp: create_short_url_persist_def commit_insert_def Let_def
          split: option.splits sum.splits if_splits)
    with assms(2) Inl have "s' = s"
      by (auto simp: create_short_url_def create_short_url_generated_def
          split: if_splits option.splits)
        (metis fst_conv snd_conv)+
    with that show ?thesis by simp
  next
    case (Inr db_url)
    with assms(2) have "s' = s\<lparr>rows := rows s @ [db_url], next_id := next_id s + 1\<rparr>"
      using create_short_url_Inr by blast
    with that show ?thesis
      by (auto simp: get_db_url_by_code_append)
  qed
  show ?thesis
    using assms(1) grow unfolding cache_within_store_def client
    by (auto split: option.splits redis.splits)
qed

lemma cache_within_store_commit_clicks:
  assumes "cache_within_store s" and "commit_clicks u s = Inr s'"
  shows "cache_within_store s'"
proof -
  have "get_db_url_by_code k (rows s') \<noteq> None" if "get_db_url_by_code k (rows s) \<noteq> None" for k
    using that by (simp add: get_db_url_by_code_commit_clicks [OF assms(2)])
  then show ?thesis
    using assms(1) unfolding cache_within_store_def commit_clicks_redis_client [OF assms(2)]
    by (auto split: option.splits redis.splits)
qed

lemma cache_within_store_redirect_from_store:
  assumes "cache_within_store s"
  shows "cache_within_store (snd (redirect_from_store code s))"
proof (cases "get_db_url_by_code code (rows s)")
  case None
  with assms show ?thesis by (simp add: redirect_from_store_def)
next
  case (Some r)
  show ?thesis
  proof (cases "is_active r \<and> redis_client s \<noteq> Some Unreachable")
    case False
    with Some assms show ?thesis
      by (auto simp: redirect_from_store_def split: option.splits)
  next
    case True
    show ?thesis
    proof (cases "redis_client s")
      case None
      with Some True assms show ?thesis
        by (auto simp: redirect_from_store_def cache_within_store_commit_clicks
            split: sum.splits)
    next
      case client: (Some c)
      with True obtain m where m: "redis_client s = Some (Connected m)"
        by (cases c) auto
      let ?s1 = "s\<lparr>redis_client := Some (Connected (Mapping.update code (target_url r) m))\<rparr>"
      have s1: "cache_within_store ?s1"
        using assms Some m by (auto simp: cache_within_store_def)
      show ?thesis
      proof (cases "commit_clicks r ?s1")
        case (Inl e)
        with Some True m s1 show ?thesis
          by (simp add: redirect_from_store_def redis_set_def)
      next
        case (Inr s')
        with Some True m cache_within_store_commit_clicks [OF s1 Inr] show ?thesis
          by (simp add: redirect_from_store_def redis_set_def)
      qed
    qed
  qed
qed

lemma cache_within_store_redirect_to_target_url:
  assumes "cache_within_store s"
  shows "cache_within_store (snd (redirect_to_target_url code s))"
proof (cases "cache_miss s code")
  case True
  with assms show ?thesis
    by (simp add: redirect_to_target_url_miss cache_within_store_redirect_from_store)
next
  case False
  with assms show ?thesis
    by (auto simp: cache_miss_def redirect_to_target_url_def redis_get_def
        split: option.splits redis.splits)
qed

section \<open>The round trip where the cache answers\<close>

lemma create_short_url_supplied_fresh:
  assumes "req_short_code url = Some code" and "code \<noteq> []"
    and "get_db_url_by_code code (rows s) = None"
  shows "create_short_url rng url s = Some (create_short_url_persist url code s)"
  using assms by (simp add: create_short_url_def)

lemma create_short_url_first_unused:
  assumes "\<not> truthy (req_short_code url)"
    and "get_db_url_by_code (generate_short_code rng (7 * n) 7) (rows s) = None"
    and "\<forall>j<n. get_db_url_by_code (generate_short_code rng (7 * j) 7) (rows s) \<noteq> None"
  shows "create_short_url rng url s =
     Some (create_short_url_persist url (generate_short_code rng (7 * n) 7) s)"
proof -
  have "create_short_url_loop rng 0 (rows s) = Some (generate_short_code rng (0 + 7 * n) 7)"
    using assms(2,3) by (intro create_short_url_loop_first_unused) simp_all
  with assms(1) show ?thesis
    by (simp add: create_short_url_no_code create_short_url_generated_def)
qed

text \<open>
  In a state whose cache holds only codes of the store and whose cache server, if
  there is a client, answers: a record that \<^verbatim>\<open>POST /shorten\<close> returns is resolved by
  \<^verbatim>\<open>GET /{code}\<close> with a 307 redirect to the request's \<open>target_url\<close>.
\<close>

lemma roundtrip_of_created:
  assumes "cache_within_store s"
    and "redis_client s \<noteq> Some Unreachable"
    and "create_short_url rng url s = Some (Inr db_url, s')"
  shows "fst (redirect_to_target_url (short_code db_url) s') =
           Inr (RedirectResponse (req_target_url url) HTTP_307_TEMPORARY_REDIRECT)"
proof -
  from create_short_url_Inr [OF assms(3)] have
    free: "get_db_url_by_code (short_code db_url) (rows s) = None"
    and row: "db_url = (URL (req_target_url url) (short_code db_url))\<lparr>url_id := Some (next_id s)\<rparr>"
    and s': "s' = s\<lparr>rows := rows s @ [db_url], next_id := next_id s + 1\<rparr>"
    by simp_all
  have found: "get_db_url_by_code (short_code db_url) (rows s') = Some db_url"
    using free by (simp add: s' get_db_url_by_code_append)
  have active: "is_active db_url" and target: "target_url db_url = req_target_url url"
    and zero: "clicks db_url = 0"
    by (subst row, simp add: URL_def)+
  have commit: "\<exists>t. commit_clicks db_url u = Inr t" for u
    using commit_clicks_in_range [of db_url u] zero
    by (simp add: INTEGER_MIN_def INTEGER_MAX_def)
  show ?thesis
  proof (cases "redis_client s")
    case None
    then have none: "redis_client s' = None"
      by (simp add: s')
    then have "redirect_to_target_url (short_code db_url) s' =
        redirect_from_store (short_code db_url) s'"
      by (simp add: redirect_to_target_url_def)
    moreover from commit obtain t where "commit_clicks db_url s' = Inr t"
      by blast
    ultimately show ?thesis
      using redirect_from_store_no_client [OF found active none] target by simp
  next
    case (Some client)
    with assms(2) obtain m where m: "client = Connected m"
      by (cases client) auto
    with Some assms(1) free have "short_code db_url \<notin> Mapping.keys m"
      by (auto simp: cache_within_store_def)
    then have "Mapping.lookup m (short_code db_url) = None"
      by (simp add: keys_is_none_rep Option.is_none_def)
    moreover have client: "redis_client s' = Some (Connected m)"
      using Some m by (simp add: s')
    ultimately have "redirect_to_target_url (short_code db_url) s' =
        redirect_from_store (short_code db_url) s'"
      by (simp add: redirect_to_target_url_def redis_get_def)
    moreover from commit obtain t where
      "commit_clicks db_url (s'\<lparr>redis_client :=
         Some (Connected (Mapping.update (short_code db_url) (target_url db_url) m))\<rparr>) = Inr t"
      by blast
    ultimately show ?thesis
      using redirect_from_store_active [OF found active client] target by simp
  qed
qed

text \<open>
  In such a state the creation also returns: for a supplied code that is unused, and
  for a generated one as soon as some draw is unused.
\<close>

lemma roundtrip_returns:
  assumes "cache_within_store s"
    and "redis_client s \<noteq> Some Unreachable"
    and "(\<exists>code. req_short_code url = Some code \<and> code \<noteq> []
            \<and> get_db_url_by_code code (rows s) = None)
         \<or> (\<not> truthy (req_short_code url)
            \<and> (\<exists>n. get_db_url_by_code (generate_short_code rng (7 * n) 7) (rows s) = None
                 \<and> (\<forall>j<n. get_db_url_by_code (generate_short_code rng (7 * j) 7) (rows s)
                            \<noteq> None)))"
  shows "\<exists>db_url s'. create_short_url rng url s = Some (Inr db_url, s')
      \<and> fst (redirect_to_target_url (short_code db_url) s') =
          Inr (RedirectResponse (req_target_url url) HTTP_307_TEMPORARY_REDIRECT)"
proof -
  from assms(3) obtain code where
    "create_short_url rng url s = Some (create_short_url_persist url code s)"
    and "get_db_url_by_code code (rows s) = None"
    using create_short_url_supplied_fresh create_short_url_first_unused by blast
  then obtain db_url s' where "create_short_url rng url s = Some (Inr db_url, s')"
    by (simp add: create_short_url_persist_fresh)
  with roundtrip_of_created [OF assms(1,2) this] show ?thesis
    by blast
qed

text \<open>
  Two requests that both load a row before either commits write the same value: the
  second commit repeats the first, and one click is lost.
\<close>

lemma commit_clicks_lost_update:
  assumes "get_db_url_by_code code (rows s) = Some r"
    and "commit_clicks r s = Inr s1" and "commit_clicks r s1 = Inr s2"
  shows "get_db_url_by_code code (rows s2) = Some (r\<lparr>clicks := clicks r + 1\<rparr>)"
proof -
  have "s2 = s1"
    using commit_clicks_twice [OF assms(2)] assms(3) by simp
  then show ?thesis
    using assms(1) by (simp add: get_db_url_by_code_commit_clicks [OF assms(2)])
qed

section \<open>The claims\<close>

text \<open>
  C1 at a concrete request: \<^verbatim>\<open>POST /shorten\<close> with the code \<open>abc1234\<close> on an empty store,
  with a client whose server is unreachable. The creation answers with the record
  (its cache call is never awaited), and \<^verbatim>\<open>GET /abc1234\<close> then raises the connection
  error instead of redirecting to the target.
\<close>

theorem roundtrip_fails_with_unreachable_cache:
  "create_short_url (\<lambda>i. i) example_request (empty_store (Some Unreachable)) =
     Some (Inr example_row, example_store (Some Unreachable))
   \<and> redirect_to_target_url (short_code example_row) (example_store (Some Unreachable)) =
     (Inl ConnectionError, example_store (Some Unreachable))"
  by (simp add: create_short_url_def create_short_url_persist_def commit_insert_def URL_def
      example_request_def empty_store_def example_store_def example_row_def
      get_db_url_by_code_def Let_def redirect_to_target_url_def redis_get_def)

text \<open>
  C2 (as amended). For a code whose row is active, which the cache does not hold, and
  whose \<open>clicks\<close> is in the column's range and below its maximum, \<^verbatim>\<open>GET /{code}\<close>
  redirects to the row's target, leaves the row in the store with \<open>clicks\<close> larger by
  exactly 1, and leaves the pair code, target in the cache.
\<close>

theorem cache_miss_counts_click_and_fills_cache:
  assumes "redis_client s = Some (Connected m)"
    and "Mapping.lookup m code = None"
    and "get_db_url_by_code code (rows s) = Some r"
    and "is_active r"
    and "INTEGER_MIN \<le> clicks r" and "clicks r < INTEGER_MAX"
  shows "fst (redirect_to_target_url code s) =
           Inr (RedirectResponse (target_url r) HTTP_307_TEMPORARY_REDIRECT)
       \<and> get_db_url_by_code code (rows (snd (redirect_to_target_url code s))) =
           Some (r\<lparr>clicks := clicks r + 1\<rparr>)
       \<and> redis_client (snd (redirect_to_target_url code s)) =
           Some (Connected (Mapping.update code (target_url r) m))"
proof -
  let ?s1 = "s\<lparr>redis_client := Some (Connected (Mapping.update code (target_url r) m))\<rparr>"
  obtain s' where commit: "commit_clicks r ?s1 = Inr s'"
    using commit_clicks_in_range [OF assms(5,6)] by blast
  have "redirect_to_target_url code s = redirect_from_store code s"
    using assms(1,2) by (simp add: redirect_to_target_url_def redis_get_def)
  then have "redirect_to_target_url code s =
      (Inr (RedirectResponse (target_url r) HTTP_307_TEMPORARY_REDIRECT), s')"
    using redirect_from_store_active [OF assms(3,4,1) commit] by simp
  then show ?thesis
    using assms(3) get_db_url_by_code_commit_clicks [OF commit, of code]
      commit_clicks_redis_client [OF commit]
    by simp
qed

theorem cache_miss_counts_click_and_fills_cache_witness:
  "get_db_url_by_code ''abc1234'' (rows (example_store (Some (Connected Mapping.empty)))) =
     Some example_row
   \<and> is_active example_row
   \<and> INTEGER_MIN \<le> clicks example_row \<and> clicks example_row < INTEGER_MAX
   \<and> fst (redirect_to_target_url ''abc1234'' (example_store (Some (Connected Mapping.empty)))) =
       Inr (RedirectResponse ''https://x.com'' HTTP_307_TEMPORARY_REDIRECT)
   \<and> get_db_url_by_code ''abc1234''
       (rows (snd (redirect_to_target_url ''abc1234''
          (example_store (Some (Connected Mapping.empty)))))) =
       Some (example_row\<lparr>clicks := 1\<rparr>)
   \<and> redis_client (snd (redirect_to_target_url ''abc1234''
          (example_store (Some (Connected Mapping.empty))))) =
       Some example_cache"
  using cache_miss_counts_click_and_fills_cache
    [of "example_store (Some (Connected Mapping.empty))" Mapping.empty "''abc1234''" example_row]
  by (simp add: example_store_def example_row_def example_cache_def get_db_url_by_code_def
      INTEGER_MIN_def INTEGER_MAX_def)

text \<open>
  C2 as stated fails: for an active row whose \<open>clicks\<close> is the column's maximum, the
  cache is written, the commit raises, and the row keeps its \<open>clicks\<close>.
\<close>

theorem click_at_column_maximum_not_counted:
  "get_db_url_by_code ''abc1234''
     (rows (clicked_store 2147483647 (Some (Connected Mapping.empty)))) =
     Some (example_row\<lparr>clicks := 2147483647\<rparr>)
   \<and> is_active (example_row\<lparr>clicks := 2147483647\<rparr>)
   \<and> redirect_to_target_url ''abc1234''
       (clicked_store 2147483647 (Some (Connected Mapping.empty))) =
     (Inl DataError, clicked_store 2147483647 (Some example_cache))"
  by (simp add: redirect_to_target_url_def redirect_from_store_def redis_get_def redis_set_def
      clicked_store_def example_row_def example_cache_def get_db_url_by_code_def
      commit_clicks_def INTEGER_MIN_def INTEGER_MAX_def)

text \<open>
  C3. On a cache hit (the server answers with a non-empty string), \<^verbatim>\<open>GET /{code}\<close>
  redirects to the cached URL and the whole state, the store with every \<open>clicks\<close>
  counter included, is unchanged.
\<close>

theorem cache_hit_leaves_store_unchanged:
  assumes "redis_client s = Some (Connected m)"
    and "Mapping.lookup m code = Some v"
    and "v \<noteq> []"
  shows "redirect_to_target_url code s =
           (Inr (RedirectResponse v HTTP_307_TEMPORARY_REDIRECT), s)"
  using assms by (simp add: redirect_to_target_url_def redis_get_def)

theorem cache_hit_leaves_store_unchanged_witness:
  "redis_client (example_store (Some example_cache)) = Some example_cache
   \<and> redirect_to_target_url ''abc1234'' (example_store (Some example_cache)) =
       (Inr (RedirectResponse ''https://x.com'' HTTP_307_TEMPORARY_REDIRECT),
        example_store (Some example_cache))"
  using cache_hit_leaves_store_unchanged
    [of "example_store (Some example_cache)"
        "Mapping.update ''abc1234'' ''https://x.com'' Mapping.empty"
        "''abc1234''" "''https://x.com''"]
  by (simp add: example_store_def example_cache_def)

text \<open>
  C4. For a caller-supplied code that a row of the store already has, \<^verbatim>\<open>POST /shorten\<close>
  raises the 409 exception, and the state (store and cache) is unchanged.
\<close>

theorem taken_code_conflict:
  assumes "req_short_code url = Some code" and "code \<noteq> []"
    and "get_db_url_by_code code (rows s) = Some r"
  shows "create_short_url rng url s = Some (Inl (HTTPException HTTP_409_CONFLICT), s)"
  using assms by (simp add: create_short_url_def)

theorem taken_code_conflict_witness:
  "req_short_code example_request = Some ''abc1234''
   \<and> get_db_url_by_code ''abc1234'' (rows (example_store None)) = Some example_row
   \<and> create_short_url (\<lambda>i. i) example_request (example_store None) =
       Some (Inl (HTTPException 409), example_store None)"
  using taken_code_conflict
    [of example_request "''abc1234''" "example_store None" example_row "\<lambda>i. i"]
  by (simp add: example_request_def example_store_def example_row_def get_db_url_by_code_def
      HTTP_409_CONFLICT_def)

text \<open>
  C5 (as amended). For a code that no row of the store has, or whose row has
  \<open>is_active\<close> false, \<^verbatim>\<open>GET /{code}\<close> raises the 404 exception and changes nothing,
  provided the cache lookup misses (no client, or no non-empty value for the code).
\<close>

theorem absent_or_inactive_not_found_on_miss:
  assumes "cache_miss s code"
    and "get_db_url_by_code code (rows s) = None
         \<or> (\<exists>r. get_db_url_by_code code (rows s) = Some r \<and> \<not> is_active r)"
  shows "redirect_to_target_url code s = (Inl (HTTPException 404), s)"
  using assms by (auto simp: redirect_to_target_url_miss redirect_from_store_def)

theorem absent_or_inactive_not_found_on_miss_witness:
  "cache_miss (example_store (Some example_cache)) ''zzzzzzz''
   \<and> get_db_url_by_code ''zzzzzzz'' (rows (example_store (Some example_cache))) = None
   \<and> redirect_to_target_url ''zzzzzzz'' (example_store (Some example_cache)) =
       (Inl (HTTPException 404), example_store (Some example_cache))
   \<and> cache_miss (inactive_store None) ''abc1234''
   \<and> get_db_url_by_code ''abc1234'' (rows (inactive_store None)) =
       Some (example_row\<lparr>is_active := False\<rparr>)
   \<and> redirect_to_target_url ''abc1234'' (inactive_store None) =
       (Inl (HTTPException 404), inactive_store None)"
  using absent_or_inactive_not_found_on_miss [of "example_store (Some example_cache)" "''zzzzzzz''"]
    absent_or_inactive_not_found_on_miss [of "inactive_store None" "''abc1234''"]
  by (simp add: cache_miss_def example_store_def inactive_store_def example_cache_def
      example_row_def get_db_url_by_code_def)

text \<open>
  C5 as stated fails: a code whose row is inactive but which the cache still holds is
  redirected, not answered with 404.
\<close>

theorem inactive_code_served_from_cache:
  "get_db_url_by_code ''abc1234'' (rows (inactive_store (Some example_cache))) =
     Some (example_row\<lparr>is_active := False\<rparr>)
   \<and> \<not> is_active (example_row\<lparr>is_active := False\<rparr>)
   \<and> cache_within_store (inactive_store (Some example_cache))
   \<and> redirect_to_target_url ''abc1234'' (inactive_store (Some example_cache)) =
       (Inr (RedirectResponse ''https://x.com'' HTTP_307_TEMPORARY_REDIRECT),
        inactive_store (Some example_cache))"
  by (simp add: redirect_to_target_url_def redis_get_def inactive_store_def example_cache_def
      example_row_def get_db_url_by_code_def cache_within_store_def)

text \<open>
  C6. The alphabet has 62 distinct characters. When the request supplies no code:
  a record that \<^verbatim>\<open>POST /shorten\<close> returns has a code of exactly 7 characters of the
  alphabet that no row of the store had; and if the \<open>n\<close>-th draw is the first one
  that is unused (every earlier draw collides and is drawn again), the handler
  returns, with that draw as the code.
\<close>

theorem generated_code_fresh:
  assumes "\<not> truthy (req_short_code url)"
  shows "length alphabet = 62 \<and> distinct alphabet
       \<and> (create_short_url rng url s = Some (Inr db_url, s') \<longrightarrow>
            length (short_code db_url) = 7
            \<and> set (short_code db_url) \<subseteq> set alphabet
            \<and> get_db_url_by_code (short_code db_url) (rows s) = None)
       \<and> (get_db_url_by_code (generate_short_code rng (7 * n) 7) (rows s) = None
            \<and> (\<forall>j<n. get_db_url_by_code (generate_short_code rng (7 * j) 7) (rows s) \<noteq> None)
            \<longrightarrow> (\<exists>r t. create_short_url rng url s = Some (Inr r, t)
                  \<and> short_code r = generate_short_code rng (7 * n) 7))"
proof (intro conjI impI)
  show "length alphabet = 62" by (rule alphabet_length)
  show "distinct alphabet" by (rule alphabet_distinct)
next
  assume made: "create_short_url rng url s = Some (Inr db_url, s')"
  with assms obtain code where loop: "create_short_url_loop rng 0 (rows s) = Some code"
    and "create_short_url_persist url code s = (Inr db_url, s')"
    by (auto simp: create_short_url_no_code create_short_url_generated_def split: option.splits)
  moreover from create_short_url_loop_unused [OF loop] obtain k
    where free: "get_db_url_by_code code (rows s) = None"
      and draw: "code = generate_short_code rng (0 + 7 * k) 7"
    by auto
  ultimately have code: "short_code db_url = code"
    by (auto simp: create_short_url_persist_fresh URL_def)
  show "length (short_code db_url) = 7"
    by (simp add: code draw generate_short_code_length)
  show "set (short_code db_url) \<subseteq> set alphabet"
    unfolding code draw by (rule generate_short_code_alphabet)
  show "get_db_url_by_code (short_code db_url) (rows s) = None"
    using free by (simp add: code)
next
  assume first: "get_db_url_by_code (generate_short_code rng (7 * n) 7) (rows s) = None
    \<and> (\<forall>j<n. get_db_url_by_code (generate_short_code rng (7 * j) 7) (rows s) \<noteq> None)"
  then have "create_short_url_loop rng 0 (rows s) = Some (generate_short_code rng (0 + 7 * n) 7)"
    by (intro create_short_url_loop_first_unused) simp_all
  with assms first show "\<exists>r t. create_short_url rng url s = Some (Inr r, t)
      \<and> short_code r = generate_short_code rng (7 * n) 7"
    by (simp add: create_short_url_no_code create_short_url_generated_def
        create_short_url_persist_fresh URL_def)
qed

theorem generated_code_fresh_witness:
  "\<not> truthy (req_short_code \<lparr>req_target_url = ''https://x.com'', req_short_code = None\<rparr>)
   \<and> generate_short_code (\<lambda>i. i) 0 7 = ''abcdefg''
   \<and> generate_short_code (\<lambda>i. i) 7 7 = ''hijklmn''
   \<and> (\<exists>r t. create_short_url (\<lambda>i. i)
          \<lparr>req_target_url = ''https://x.com'', req_short_code = None\<rparr>
          \<lparr>rows = [example_row\<lparr>short_code := ''abcdefg''\<rparr>], next_id = 2, redis_client = None\<rparr>
        = Some (Inr r, t) \<and> short_code r = ''hijklmn'')"
proof -
  have d0: "generate_short_code (\<lambda>i. i) 0 7 = ''abcdefg''"
    by (simp add: generate_short_code_def secrets_choice_def alphabet_def upt_rec)
  have d1: "generate_short_code (\<lambda>i. i) 7 7 = ''hijklmn''"
    by (simp add: generate_short_code_def secrets_choice_def alphabet_def upt_rec)
  have "\<forall>j<Suc 0. get_db_url_by_code (generate_short_code (\<lambda>i. i) (7 * j) 7)
      [example_row\<lparr>short_code := ''abcdefg''\<rparr>] \<noteq> None"
    by (simp add: d0 get_db_url_by_code_def)
  then show ?thesis
    using generated_code_fresh
      [of "\<lparr>req_target_url = ''https://x.com'', req_short_code = None\<rparr>" "\<lambda>i. i"
          "\<lparr>rows = [example_row\<lparr>short_code := ''abcdefg''\<rparr>], next_id = 2, redis_client = None\<rparr>"
          _ _ "Suc 0"]
    by (simp add: d0 d1 get_db_url_by_code_def)
qed

text \<open>
  C7 at a concrete request: \<^verbatim>\<open>POST /shorten\<close> with the code \<open>abc1234\<close>, on an empty store
  with a connected, empty cache. The record is persisted, the cache is still empty
  afterwards, and the next \<^verbatim>\<open>GET /abc1234\<close> is a cache miss that counts a click.
\<close>

theorem create_short_url_leaves_cache_unprimed:
  "create_short_url (\<lambda>i. i) example_request (empty_store (Some (Connected Mapping.empty))) =
     Some (Inr example_row, example_store (Some (Connected Mapping.empty)))
   \<and> cache_miss (example_store (Some (Connected Mapping.empty))) ''abc1234''
   \<and> rows (snd (redirect_to_target_url ''abc1234''
        (example_store (Some (Connected Mapping.empty))))) = [example_row\<lparr>clicks := 1\<rparr>]"
  by (simp add: create_short_url_def create_short_url_persist_def commit_insert_def URL_def
      example_request_def empty_store_def example_store_def example_row_def
      get_db_url_by_code_def Let_def cache_miss_def redirect_to_target_url_def
      redirect_from_store_def redis_get_def redis_set_def commit_clicks_def
      INTEGER_MIN_def INTEGER_MAX_def)

text \<open>
  C8 at a concrete request: \<^verbatim>\<open>GET /abc1234\<close> for an active row. With a client whose
  server is unreachable the handler raises the connection error; with no client
  (the store-only path) it redirects.
\<close>

theorem unreachable_cache_fails_redirect:
  "redirect_to_target_url ''abc1234'' (example_store (Some Unreachable)) =
     (Inl ConnectionError, example_store (Some Unreachable))
   \<and> redirect_to_target_url ''abc1234'' (example_store None) =
     (Inr (RedirectResponse ''https://x.com'' HTTP_307_TEMPORARY_REDIRECT),
      \<lparr>rows = [example_row\<lparr>clicks := 1\<rparr>], next_id = 2, redis_client = None\<rparr>)"
  by (simp add: redirect_to_target_url_def redirect_from_store_def redis_get_def
      example_store_def example_row_def get_db_url_by_code_def commit_clicks_def
      INTEGER_MIN_def INTEGER_MAX_def)

text \<open>
  C9 at two concurrent requests \<^verbatim>\<open>GET /abc1234\<close> for an active row with \<open>clicks = 0\<close>
  and a connected, empty cache. Both cache lookups miss; the first request loads the
  row and awaits its cache write, and while it waits the second request loads the
  same row; then each commits the value it computed from its own load. After the two
  cache-miss resolutions \<open>clicks\<close> is 1. Two such resolutions one after the other
  (here with no cache client, so that both miss) leave 2.
\<close>

theorem concurrent_misses_lose_a_click:
  "await (redis_get ''abc1234'') (Connected Mapping.empty) = Inr (None, Connected Mapping.empty)
   \<and> get_db_url_by_code ''abc1234'' (rows (example_store (Some (Connected Mapping.empty)))) =
       Some example_row
   \<and> await (redis_set ''abc1234'' (target_url example_row)) (Connected Mapping.empty) =
       Inr (None, example_cache)
   \<and> get_db_url_by_code ''abc1234'' (rows (example_store (Some example_cache))) =
       Some example_row
   \<and> commit_clicks example_row (example_store (Some example_cache)) =
       Inr (clicked_store 1 (Some example_cache))
   \<and> commit_clicks example_row (clicked_store 1 (Some example_cache)) =
       Inr (clicked_store 1 (Some example_cache))
   \<and> snd (redirect_to_target_url ''abc1234''
        (snd (redirect_to_target_url ''abc1234'' (example_store None)))) =
       clicked_store 2 None"
  by (simp add: redis_get_def redis_set_def example_store_def clicked_store_def
      example_row_def example_cache_def get_db_url_by_code_def commit_clicks_def
      INTEGER_MIN_def INTEGER_MAX_def redirect_to_target_url_def redirect_from_store_def)

text \<open>
  C10. For every code that a row of the store has, \<^verbatim>\<open>GET /stats/{code}\<close> returns the
  row's code, target, clicks and \<open>is_active\<close>, whatever \<open>is_active\<close> is; for an
  inactive row whose code the cache lookup misses, \<^verbatim>\<open>GET /{code}\<close> raises 404.
\<close>

theorem stats_ignore_is_active:
  assumes "get_db_url_by_code code (rows s) = Some r"
  shows "get_url_stats code s =
           Inr \<lparr>stats_short_code = code, stats_target_url = target_url r,
                stats_clicks = clicks r, stats_is_active = is_active r\<rparr>
       \<and> (\<not> is_active r \<and> cache_miss s code \<longrightarrow>
            fst (redirect_to_target_url code s) = Inl (HTTPException 404))"
  using assms get_db_url_by_code_short_code [OF assms]
  by (simp add: get_url_stats_def redirect_to_target_url_miss redirect_from_store_def)

theorem stats_ignore_is_active_witness:
  "get_db_url_by_code ''abc1234'' (rows (inactive_store None)) =
     Some (example_row\<lparr>is_active := False\<rparr>)
   \<and> cache_miss (inactive_store None) ''abc1234''
   \<and> get_url_stats ''abc1234'' (inactive_store None) =
       Inr \<lparr>stats_short_code = ''abc1234'', stats_target_url = ''https://x.com'',
            stats_clicks = 0, stats_is_active = False\<rparr>
   \<and> fst (redirect_to_target_url ''abc1234'' (inactive_store None)) = Inl (HTTPException 404)"
  using stats_ignore_is_active
    [of "''abc1234''" "inactive_store None" "example_row\<lparr>is_active := False\<rparr>"]
  by (simp add: inactive_store_def example_row_def get_db_url_by_code_def cache_miss_def)

end
